theory Spec2Isabelle
  imports Main "HOL-Library.AList"
begin

section \<open>Values and objects\<close>

text \<open>
  The library is TypeScript. The values that travel through it (modal data, flags, close
  results) are dynamically typed, so they are modelled by one datatype of JavaScript
  values. An object literal is an association list of its own properties in insertion
  order; reading a property is \<open>map_of\<close>, assigning one is \<open>AList.update\<close> (in place when
  the key exists, appended otherwise) and \<open>delete obj[k]\<close> is \<open>AList.delete\<close>.
  The same representation serves the module-level \<open>Record<string, T>\<close> tables.
  (JavaScript enumerates integer-like keys first; no statement below depends on the
  enumeration order.)
\<close>

datatype jsval =
    Undefined
  | JNull
  | JBool bool
  | JNum int
  | JStr string
  | JObj "(string \<times> jsval) list"

type_synonym 'a dict = "(string \<times> 'a) list"

text \<open>JavaScript truthiness, as used by \<open>!x\<close>, \<open>!!x\<close> and \<open>if (x)\<close>.\<close>

fun truthy :: "jsval \<Rightarrow> bool" where
  "truthy Undefined = False"
| "truthy JNull = False"
| "truthy (JBool b) = b"
| "truthy (JNum n) = (n \<noteq> 0)"
| "truthy (JStr s) = (s \<noteq> [])"
| "truthy (JObj _) = True"

text \<open>Reading a property that may be missing: \<open>obj[k]\<close> is \<open>undefined\<close> when absent.\<close>

definition get_prop :: "jsval dict \<Rightarrow> string \<Rightarrow> jsval" where
  "get_prop obj k = (case map_of obj k of None \<Rightarrow> Undefined | Some v \<Rightarrow> v)"

text \<open>Object spread \<open>{...base, ...over}\<close>: the properties of \<open>over\<close> are assigned in order.\<close>

definition spread :: "jsval dict \<Rightarrow> jsval dict \<Rightarrow> jsval dict" where
  "spread base over = fold (\<lambda>(k, v). AList.update k v) over base"

section \<open>The store and its reducer (core.ts)\<close>

text \<open>
  \<open>ModalState\<close> is an object with the properties \<open>modalId\<close>, \<open>data\<close>, \<open>isOpen\<close>, \<open>delayOpen\<close>,
  \<open>keepMounted\<close> (all but the first optional); \<open>set-flags\<close> merges arbitrary properties
  into it, so it is kept as an object. \<open>ModalStore\<close> maps identifiers to such objects.
\<close>

type_synonym ModalState = "jsval dict"
type_synonym ModalStore = "ModalState dict"

text \<open>
  The four action types of \<open>ModalAction\<close>; \<open>Unknown t\<close> stands for an action of any other
  type \<open>t\<close>, which reaches the reducer's \<open>default\<close> branch when the reducer is mounted in an
  external state container.
\<close>

datatype ModalAction =
    Show string jsval
  | Hide string
  | Remove string
  | SetFlags string "jsval dict"
  | Unknown string

text \<open>
  The reducer's guarantees are about object identity (\<open>return state\<close> versus a new object
  literal), so store objects live in an object heap: a reference is an address, a new
  object literal is allocated at the next free address, and nothing else is written.
\<close>

record objheap =
  cells :: "nat \<Rightarrow> ModalStore"
  fresh :: nat

definition new_obj :: "ModalStore \<Rightarrow> objheap \<Rightarrow> nat \<times> objheap" where
  "new_obj v h = (fresh h, h\<lparr>cells := (cells h)(fresh h := v), fresh := Suc (fresh h)\<rparr>)"

text \<open>
  \<open>reducer mounted state action h\<close>: \<open>state\<close> is the reference passed in, \<open>mounted\<close> the
  module-level table \<open>ALREADY_MOUNTED\<close> the reducer reads, \<open>h\<close> the object heap. The result
  is the returned reference and the heap after the call.
\<close>

definition reducer :: "bool dict \<Rightarrow> nat \<Rightarrow> ModalAction \<Rightarrow> objheap \<Rightarrow> nat \<times> objheap" where
  "reducer mounted state action h =
    (case action of
       Show modalId data \<Rightarrow>
         new_obj
           (AList.update modalId
              (spread (case map_of (cells h state) modalId of None \<Rightarrow> [] | Some old \<Rightarrow> old)
                 [(''modalId'', JStr modalId),
                  (''data'', data),
                  (''isOpen'', JBool (map_of mounted modalId = Some True)),
                  (''delayOpen'', JBool (map_of mounted modalId \<noteq> Some True))])
              (cells h state)) h
     | Hide modalId \<Rightarrow>
         (case map_of (cells h state) modalId of
            None \<Rightarrow> (state, h)
          | Some modalState \<Rightarrow>
              new_obj
                (AList.update modalId (spread modalState [(''isOpen'', JBool False)])
                   (cells h state)) h)
     | Remove modalId \<Rightarrow> new_obj (AList.delete modalId (cells h state)) h
     | SetFlags modalId flags \<Rightarrow>
         (case map_of (cells h state) modalId of
            None \<Rightarrow> (state, h)
          | Some existingState \<Rightarrow>
              new_obj (AList.update modalId (spread existingState flags) (cells h state)) h)
     | Unknown t \<Rightarrow> (state, h))"

text \<open>\<open>initialState\<close>: the empty store object, allocated once when the module loads.\<close>

definition initial_objheap :: objheap where
  "initial_objheap = \<lparr>cells = (\<lambda>_. []), fresh = 1\<rparr>"

definition initialState :: nat where
  "initialState = 0"

section \<open>Identifiers and the registry (core.ts)\<close>

text \<open>
  \<open>uidSeed\<close> is a JavaScript number. Counting up from 0 in steps of one it is an exact
  integer up to \<open>2^53\<close>, where \<open>uidSeed++\<close> stops changing it (\<open>2^53 + 1\<close> rounds back to
  \<open>2^53\<close>). \<open>incr_number\<close> is that increment on the integers \<open>0 .. 2^53\<close>.
\<close>

definition incr_number :: "nat \<Rightarrow> nat" where
  "incr_number n = (if n < 2 ^ 53 then n + 1 else n)"

text \<open>The decimal rendering of a non-negative integer inside a template literal.\<close>

fun string_of_nat :: "nat \<Rightarrow> string" where
  "string_of_nat n =
    (if n < 10 then [''0123456789'' ! n]
     else string_of_nat (n div 10) @ [''0123456789'' ! (n mod 10)])"

declare string_of_nat.simps [simp del]

text \<open>
  A modal is named by a string or by a component. Components are function objects; the
  model identifies one by a number, and the symbol-keyed property \<open>symModalId\<close> that
  \<open>getModalId\<close> attaches to a component is a table from components to identifiers.
\<close>

datatype modal_arg = ById string | ByComponent nat

record ModalRegistryEntry =
  comp :: nat
  props :: jsval

section \<open>Promises and the coordinator state (api.ts)\<close>

text \<open>
  A promise is an address in a promise heap holding its settlement state. A deferred
  (\<open>createDeferredPromise\<close>) is a fresh pending promise; its \<open>resolve\<close> function settles
  that address the first time it is called and does nothing afterwards, as the
  resolving functions of a JavaScript promise do. No code path calls \<open>reject\<close>.
\<close>

datatype pstate = Pending | Resolved jsval | Rejected jsval

datatype ModalLifecycleState = Open | Closing | Closed

text \<open>
  \<open>dispatchFn\<close>: the module starts with a function that throws; the provider installs the
  dispatch of its reducer with \<open>setDispatch\<close>.
\<close>

datatype dispatcher = NoProvider | ProviderDispatch

datatype error = NoDispatchMethod

text \<open>
  All module-level state of core.ts and api.ts, together with what the provider holds
  (\<open>modals\<close>, the current store reference, in the object heap \<open>objects\<close>), the promise heap,
  the trace of dispatched actions and the pending \<open>setTimeout\<close> callbacks of \<open>markClosed\<close>
  (all have the same delay, so they run in the order they were scheduled).
\<close>

record mstate =
  uidSeed :: nat
  symModalId :: "(nat \<times> string) list"
  dispatchFn :: dispatcher
  ALREADY_MOUNTED :: "bool dict"
  MODAL_REGISTRY :: "ModalRegistryEntry dict"
  modals :: nat
  objects :: objheap
  dispatched :: "ModalAction list"
  promises :: "nat \<Rightarrow> pstate"
  nextPromise :: nat
  modalCallbacks :: "nat dict"
  hideModalCallbacks :: "nat dict"
  openedCallbacks :: "nat dict"
  beforeClosedCallbacks :: "nat dict"
  modalStates :: "ModalLifecycleState dict"
  closedPromises :: "nat dict"
  timers :: "string list"

definition initial :: mstate where
  "initial =
    \<lparr>uidSeed = 0, symModalId = [], dispatchFn = NoProvider, ALREADY_MOUNTED = [],
     MODAL_REGISTRY = [], modals = initialState, objects = initial_objheap, dispatched = [],
     promises = (\<lambda>_. Pending), nextPromise = 0, modalCallbacks = [],
     hideModalCallbacks = [], openedCallbacks = [], beforeClosedCallbacks = [],
     modalStates = [], closedPromises = [], timers = []\<rparr>"

text \<open>
  A call that throws returns \<open>Inl\<close> with the error and the state at the throw: whatever
  was assigned before the exception stays assigned.
\<close>

type_synonym 'a result = "(error \<times> mstate) + 'a"

definition resetUidSeed :: "mstate \<Rightarrow> mstate" where
  "resetUidSeed s = s\<lparr>uidSeed := 0\<rparr>"

definition getUid :: "mstate \<Rightarrow> string \<times> mstate" where
  "getUid s = (''_modal_'' @ string_of_nat (uidSeed s), s\<lparr>uidSeed := incr_number (uidSeed s)\<rparr>)"

definition getModalId :: "modal_arg \<Rightarrow> mstate \<Rightarrow> string \<times> mstate" where
  "getModalId modal s =
    (case modal of
       ById modalId \<Rightarrow> (modalId, s)
     | ByComponent c \<Rightarrow>
         (case map_of (symModalId s) c of
            None \<Rightarrow>
              (let (uid, s1) = getUid s
               in (uid, s1\<lparr>symModalId := AList.update c uid (symModalId s1)\<rparr>))
          | Some cached \<Rightarrow>
              if cached = [] then
                (let (uid, s1) = getUid s
                 in (uid, s1\<lparr>symModalId := AList.update c uid (symModalId s1)\<rparr>))
              else (cached, s)))"

definition setDispatch :: "dispatcher \<Rightarrow> mstate \<Rightarrow> mstate" where
  "setDispatch fn s = s\<lparr>dispatchFn := fn\<rparr>"

text \<open>
  \<open>getDispatch()(action)\<close>. The provider's dispatch runs the reducer on the current store
  reference and keeps the reference it returns.
\<close>

definition dispatch :: "ModalAction \<Rightarrow> mstate \<Rightarrow> mstate result" where
  "dispatch action s =
    (case dispatchFn s of
       NoProvider \<Rightarrow> Inl (NoDispatchMethod, s)
     | ProviderDispatch \<Rightarrow>
         (let (r, h) = reducer (ALREADY_MOUNTED s) (modals s) action (objects s)
          in Inr (s\<lparr>modals := r, objects := h, dispatched := dispatched s @ [action]\<rparr>)))"

definition register :: "string \<Rightarrow> nat \<Rightarrow> jsval \<Rightarrow> mstate \<Rightarrow> mstate" where
  "register ident c p s =
    (case map_of (MODAL_REGISTRY s) ident of
       Some entry \<Rightarrow>
         s\<lparr>MODAL_REGISTRY := AList.update ident (entry\<lparr>props := p\<rparr>) (MODAL_REGISTRY s)\<rparr>
     | None \<Rightarrow>
         s\<lparr>MODAL_REGISTRY := AList.update ident \<lparr>comp = c, props = p\<rparr> (MODAL_REGISTRY s)\<rparr>)"

definition unregister :: "string \<Rightarrow> mstate \<Rightarrow> mstate" where
  "unregister ident s = s\<lparr>MODAL_REGISTRY := AList.delete ident (MODAL_REGISTRY s)\<rparr>"

definition cleanupCallbacks :: "string \<Rightarrow> mstate \<Rightarrow> mstate" where
  "cleanupCallbacks modalId s =
    s\<lparr>modalCallbacks := AList.delete modalId (modalCallbacks s),
      hideModalCallbacks := AList.delete modalId (hideModalCallbacks s)\<rparr>"

definition cleanupAllCallbacks :: "mstate \<Rightarrow> mstate" where
  "cleanupAllCallbacks s =
    (let s1 = fold (\<lambda>key t. t\<lparr>modalCallbacks := AList.delete key (modalCallbacks t)\<rparr>)
                (map fst (modalCallbacks s)) s
     in fold (\<lambda>key t. t\<lparr>hideModalCallbacks := AList.delete key (hideModalCallbacks t)\<rparr>)
          (map fst (hideModalCallbacks s1)) s1)"

definition createDeferredPromise :: "mstate \<Rightarrow> nat \<times> mstate" where
  "createDeferredPromise s =
    (nextPromise s,
     s\<lparr>promises := (promises s)(nextPromise s := Pending), nextPromise := Suc (nextPromise s)\<rparr>)"

text \<open>\<open>Promise.resolve(v)\<close>: a new promise that is already resolved with \<open>v\<close>.\<close>

definition Promise_resolve :: "jsval \<Rightarrow> mstate \<Rightarrow> nat \<times> mstate" where
  "Promise_resolve v s =
    (nextPromise s,
     s\<lparr>promises := (promises s)(nextPromise s := Resolved v), nextPromise := Suc (nextPromise s)\<rparr>)"

text \<open>The \<open>resolve\<close> function of the deferred at address \<open>p\<close>, called with \<open>v\<close>.\<close>

definition resolve :: "nat \<Rightarrow> jsval \<Rightarrow> mstate \<Rightarrow> mstate" where
  "resolve p v s =
    (case promises s p of
       Pending \<Rightarrow> s\<lparr>promises := (promises s)(p := Resolved v)\<rparr>
     | _ \<Rightarrow> s)"

text \<open>\<open>table[modalId]?.resolve(v)\<close> on the looked-up entry.\<close>

definition resolve_entry :: "nat option \<Rightarrow> jsval \<Rightarrow> mstate \<Rightarrow> mstate" where
  "resolve_entry entry v s = (case entry of None \<Rightarrow> s | Some p \<Rightarrow> resolve p v s)"

definition cleanupModal :: "string \<Rightarrow> mstate \<Rightarrow> mstate" where
  "cleanupModal modalId s =
    s\<lparr>modalCallbacks := AList.delete modalId (modalCallbacks s),
      hideModalCallbacks := AList.delete modalId (hideModalCallbacks s),
      openedCallbacks := AList.delete modalId (openedCallbacks s),
      beforeClosedCallbacks := AList.delete modalId (beforeClosedCallbacks s),
      modalStates := AList.delete modalId (modalStates s),
      closedPromises := AList.delete modalId (closedPromises s)\<rparr>"

text \<open>\<open>new Set([...])\<close> keeps the first occurrence of each key.\<close>

definition key_set :: "string list \<Rightarrow> string list" where
  "key_set ks = rev (remdups (rev ks))"

definition cleanupAllModals :: "mstate \<Rightarrow> mstate" where
  "cleanupAllModals s =
    fold cleanupModal
      (key_set
         (map fst (modalCallbacks s) @ map fst (hideModalCallbacks s)
          @ map fst (openedCallbacks s) @ map fst (beforeClosedCallbacks s)
          @ map fst (modalStates s) @ map fst (closedPromises s)))
      s"

definition closeModal :: "modal_arg \<Rightarrow> mstate \<Rightarrow> (nat \<times> mstate) result" where
  "closeModal modal s =
    (let (modalId, s1) = getModalId modal s;
         s2 = s1\<lparr>modalStates := AList.update modalId Closing (modalStates s1)\<rparr>
     in case dispatch (Hide modalId) s2 of
          Inl e \<Rightarrow> Inl e
        | Inr s3 \<Rightarrow>
            (let s4 =
                   (case map_of (modalCallbacks s3) modalId of
                      None \<Rightarrow> s3
                    | Some p \<Rightarrow>
                        (let s3a = resolve p Undefined s3
                         in s3a\<lparr>modalCallbacks :=
                                  AList.delete modalId (modalCallbacks s3a)\<rparr>))
             in case map_of (hideModalCallbacks s4) modalId of
                  None \<Rightarrow>
                    (let (d, s5) = createDeferredPromise s4
                     in Inr (d, s5\<lparr>hideModalCallbacks :=
                                     AList.update modalId d (hideModalCallbacks s5)\<rparr>))
                | Some d \<Rightarrow> Inr (d, s4)))"

definition removeModal :: "modal_arg \<Rightarrow> mstate \<Rightarrow> mstate result" where
  "removeModal modal s =
    (let (modalId, s1) = getModalId modal s
     in case dispatch (Remove modalId) s1 of
          Inl e \<Rightarrow> Inl e
        | Inr s2 \<Rightarrow>
            (let s3 = resolve_entry (map_of (modalCallbacks s2) modalId) Undefined s2;
                 s4 = resolve_entry (map_of (hideModalCallbacks s3) modalId) Undefined s3;
                 s5 = resolve_entry (map_of (beforeClosedCallbacks s4) modalId) Undefined s4;
                 s6 = resolve_entry (map_of (openedCallbacks s5) modalId) Undefined s5
             in Inr (cleanupModal modalId s6)))"

definition setFlags :: "string \<Rightarrow> jsval dict \<Rightarrow> mstate \<Rightarrow> mstate result" where
  "setFlags modalId flags s = dispatch (SetFlags modalId flags) s"

text \<open>\<open>ModalConfig\<close>: every field is optional (\<open>None\<close> when it is not given).\<close>

record ModalConfig =
  cfg_data :: "jsval dict option"
  cfg_keepMounted :: "bool option"
  cfg_modalId :: "string option"
  cfg_disableClose :: "bool option"

text \<open>
  The \<open>ModalRef\<close> returned by \<open>openModal\<close>. Its methods are closures over \<open>modalId\<close>; they
  are the functions \<open>ref_close\<close>, \<open>ref_afterOpened\<close>, \<open>ref_afterClosed\<close>, \<open>ref_beforeClosed\<close>
  and \<open>ref_getState\<close> below. (\<open>updateData\<close> and the \<open>disableClose\<close> setter touch the module
  state only by dispatching an action.)
\<close>

record ModalRef =
  ref_modalId :: string
  ref_data :: "jsval dict option"
  ref_disableClose :: bool

definition MODAL_CONFIG_KEY :: string where
  "MODAL_CONFIG_KEY = ''__modalConfig''"

definition openModal :: "modal_arg \<Rightarrow> ModalConfig \<Rightarrow> mstate \<Rightarrow> (ModalRef \<times> mstate) result" where
  "openModal modal config s =
    (let (modalId, s1) =
           (case cfg_modalId config of Some given \<Rightarrow> (given, s) | None \<Rightarrow> getModalId modal s);
         s2 =
           (case modal of
              ById _ \<Rightarrow> s1
            | ByComponent c \<Rightarrow>
                if map_of (MODAL_REGISTRY s1) modalId = None
                then register modalId c Undefined s1 else s1);
         disableClose = (case cfg_disableClose config of Some b \<Rightarrow> b | None \<Rightarrow> False);
         modalConfig =
           [(''disableClose'', JBool disableClose),
            (''keepMounted'',
               (case cfg_keepMounted config of None \<Rightarrow> Undefined | Some b \<Rightarrow> JBool b))];
         data =
           spread (case cfg_data config of None \<Rightarrow> [] | Some d \<Rightarrow> d)
             [(MODAL_CONFIG_KEY, JObj modalConfig)];
         s3 = s2\<lparr>modalStates := AList.update modalId Open (modalStates s2)\<rparr>
     in case dispatch (Show modalId (JObj data)) s3 of
          Inl e \<Rightarrow> Inl e
        | Inr s4 \<Rightarrow>
            (case (if cfg_keepMounted config = Some True
                   then dispatch (SetFlags modalId [(''keepMounted'', JBool True)]) s4
                   else Inr s4) of
               Inl e \<Rightarrow> Inl e
             | Inr s5 \<Rightarrow>
                 (let (mainCallbacks, s6) = createDeferredPromise s5;
                      s7 = s6\<lparr>modalCallbacks :=
                                AList.update modalId mainCallbacks (modalCallbacks s6)\<rparr>;
                      s8 = s7\<lparr>closedPromises :=
                                AList.update modalId mainCallbacks (closedPromises s7)\<rparr>;
                      (openedDeferred, s9) = createDeferredPromise s8;
                      s10 = s9\<lparr>openedCallbacks :=
                                 AList.update modalId openedDeferred (openedCallbacks s9)\<rparr>;
                      (beforeClosedDeferred, s11) = createDeferredPromise s10;
                      s12 = s11\<lparr>beforeClosedCallbacks :=
                                  AList.update modalId beforeClosedDeferred
                                    (beforeClosedCallbacks s11)\<rparr>
                  in Inr (\<lparr>ref_modalId = modalId, ref_data = cfg_data config,
                            ref_disableClose = disableClose\<rparr>, s12))))"

definition ref_close :: "ModalRef \<Rightarrow> jsval \<Rightarrow> mstate \<Rightarrow> mstate result" where
  "ref_close r result s =
    (if map_of (modalStates s) (ref_modalId r) = Some Closed then Inr s
     else
       (let modalId = ref_modalId r;
            s1 = s\<lparr>modalStates := AList.update modalId Closing (modalStates s)\<rparr>;
            s2 = resolve_entry (map_of (beforeClosedCallbacks s1) modalId) result s1;
            s3 = s2\<lparr>beforeClosedCallbacks := AList.delete modalId (beforeClosedCallbacks s2)\<rparr>;
            s4 = resolve_entry (map_of (modalCallbacks s3) modalId) result s3;
            s5 = s4\<lparr>modalCallbacks := AList.delete modalId (modalCallbacks s4)\<rparr>
        in case closeModal (ById modalId) s5 of
             Inl e \<Rightarrow> Inl e
           | Inr (_, s6) \<Rightarrow> Inr s6))"

definition ref_afterOpened :: "ModalRef \<Rightarrow> mstate \<Rightarrow> nat \<times> mstate" where
  "ref_afterOpened r s =
    (case map_of (openedCallbacks s) (ref_modalId r) of
       Some p \<Rightarrow> (p, s)
     | None \<Rightarrow> Promise_resolve Undefined s)"

definition ref_afterClosed :: "ModalRef \<Rightarrow> mstate \<Rightarrow> nat \<times> mstate" where
  "ref_afterClosed r s =
    (case map_of (closedPromises s) (ref_modalId r) of
       Some p \<Rightarrow> (p, s)
     | None \<Rightarrow> Promise_resolve Undefined s)"

definition ref_beforeClosed :: "ModalRef \<Rightarrow> mstate \<Rightarrow> nat \<times> mstate" where
  "ref_beforeClosed r s =
    (case map_of (beforeClosedCallbacks s) (ref_modalId r) of
       Some p \<Rightarrow> (p, s)
     | None \<Rightarrow> Promise_resolve Undefined s)"


text \<open>\<open>markClosed\<close> sets the state and schedules its cleanup callback with \<open>setTimeout\<close>.\<close>

definition markClosed :: "string \<Rightarrow> mstate \<Rightarrow> mstate" where
  "markClosed modalId s =
    s\<lparr>modalStates := AList.update modalId Closed (modalStates s),
      timers := timers s @ [modalId]\<rparr>"

text \<open>The callback scheduled by \<open>markClosed modalId\<close>, run when its delay has passed.\<close>

definition cleanup_callback :: "string \<Rightarrow> mstate \<Rightarrow> mstate" where
  "cleanup_callback modalId s =
    (if map_of (modalStates s) modalId = Some Closed
     then s\<lparr>modalStates := AList.delete modalId (modalStates s),
            closedPromises := AList.delete modalId (closedPromises s)\<rparr>
     else s)"

text \<open>The timer that was scheduled first fires.\<close>

definition fire_timer :: "mstate \<Rightarrow> mstate" where
  "fire_timer s =
    (case timers s of
       [] \<Rightarrow> s
     | modalId # rest \<Rightarrow> cleanup_callback modalId (s\<lparr>timers := rest\<rparr>))"

definition getOpenModals :: "mstate \<Rightarrow> string list" where
  "getOpenModals s =
    map fst (filter (\<lambda>(_, state). state = Open \<or> state = Closing) (modalStates s))"

definition hasOpenModals :: "mstate \<Rightarrow> bool" where
  "hasOpenModals s = (length (getOpenModals s) > 0)"

text \<open>
  The body of the \<open>for\<close> loop of \<open>closeAllModals\<close> for one identifier of the snapshot
  (it returns the promise that is pushed onto \<open>closePromises\<close>), and the loop itself, with
  the array \<open>closePromises\<close> as accumulator.
\<close>

definition closeAll_body :: "string \<Rightarrow> mstate \<Rightarrow> (nat \<times> mstate) result" where
  "closeAll_body modalId s =
    (let s1 = s\<lparr>modalStates := AList.update modalId Closing (modalStates s)\<rparr>;
         s2 = resolve_entry (map_of (beforeClosedCallbacks s1) modalId) Undefined s1;
         s3 = s2\<lparr>beforeClosedCallbacks := AList.delete modalId (beforeClosedCallbacks s2)\<rparr>;
         s4 = resolve_entry (map_of (modalCallbacks s3) modalId) Undefined s3;
         s5 = s4\<lparr>modalCallbacks := AList.delete modalId (modalCallbacks s4)\<rparr>
     in closeModal (ById modalId) s5)"

fun closeAll_loop :: "string list \<Rightarrow> nat list \<Rightarrow> mstate \<Rightarrow> (nat list \<times> mstate) result" where
  "closeAll_loop [] closePromises s = Inr (closePromises, s)"
| "closeAll_loop (modalId # rest) closePromises s =
    (case closeAll_body modalId s of
       Inl e \<Rightarrow> Inl e
     | Inr (p, s') \<Rightarrow> closeAll_loop rest (closePromises @ [p]) s')"

text \<open>
  \<open>closeAllModals\<close> is an \<open>async\<close> function: it runs up to \<open>await Promise.all(closePromises)\<close>
  and its promise is fulfilled once that \<open>Promise.all\<close> is. The model returns the array
  \<open>closePromises\<close> it waits for; \<open>all_fulfilled\<close> says that every promise of such an array
  is fulfilled, which is when \<open>Promise.all\<close> of it is. (An exception inside an \<open>async\<close>
  function rejects its promise; that is the \<open>Inl\<close> result here.)
\<close>

definition closeAllModals :: "mstate \<Rightarrow> (nat list \<times> mstate) result" where
  "closeAllModals s = closeAll_loop (getOpenModals s) [] s"



definition notifyOpened :: "string \<Rightarrow> mstate \<Rightarrow> mstate" where
  "notifyOpened modalId s =
    (let s1 = resolve_entry (map_of (openedCallbacks s) modalId) Undefined s
     in s1\<lparr>openedCallbacks := AList.delete modalId (openedCallbacks s1)\<rparr>)"

section \<open>The handler of useModal (hooks.ts) and the mount effect (hoc.tsx)\<close>

text \<open>
  The control methods that \<open>useModal\<close> returns for an identifier. \<open>onAnimationEnd\<close> reads
  \<open>modalInfoRef.current\<close>, the store entry of the identifier as last rendered; the model
  reads the entry of the current store.
\<close>

definition openCallback :: "string \<Rightarrow> jsval dict option \<Rightarrow> mstate \<Rightarrow> (nat \<times> mstate) result" where
  "openCallback modalId data s =
    (case openModal (ById modalId)
            \<lparr>cfg_data = data, cfg_keepMounted = None, cfg_modalId = None,
             cfg_disableClose = None\<rparr> s of
       Inl e \<Rightarrow> Inl e
     | Inr (r, s1) \<Rightarrow> Inr (ref_afterClosed r s1))"

definition closeCallback :: "string \<Rightarrow> jsval \<Rightarrow> mstate \<Rightarrow> mstate result" where
  "closeCallback modalId result s =
    (let s1 = resolve_entry (map_of (modalCallbacks s) modalId) result s;
         s2 = s1\<lparr>modalCallbacks := AList.delete modalId (modalCallbacks s1)\<rparr>
     in case closeModal (ById modalId) s2 of
          Inl e \<Rightarrow> Inl e
        | Inr (_, s3) \<Rightarrow> Inr s3)"

definition dismissCallback :: "string \<Rightarrow> mstate \<Rightarrow> mstate result" where
  "dismissCallback modalId s =
    (let s1 = resolve_entry (map_of (modalCallbacks s) modalId) Undefined s;
         s2 = s1\<lparr>modalCallbacks := AList.delete modalId (modalCallbacks s1)\<rparr>
     in case closeModal (ById modalId) s2 of
          Inl e \<Rightarrow> Inl e
        | Inr (_, s3) \<Rightarrow> Inr s3)"

definition removeCallback :: "string \<Rightarrow> mstate \<Rightarrow> mstate result" where
  "removeCallback modalId s = removeModal (ById modalId) s"

definition onAnimationEnd :: "string \<Rightarrow> mstate \<Rightarrow> mstate result" where
  "onAnimationEnd modalId s =
    (let current = map_of (cells (objects s) (modals s)) modalId
     in if (case current of None \<Rightarrow> False | Some c \<Rightarrow> truthy (get_prop c ''isOpen''))
        then Inr (notifyOpened modalId s)
        else
          (let s1 = markClosed modalId s;
               s2 = resolve_entry (map_of (hideModalCallbacks s1) modalId) Undefined s1;
               s3 = s2\<lparr>hideModalCallbacks := AList.delete modalId (hideModalCallbacks s2)\<rparr>
           in if \<not> (case current of None \<Rightarrow> False
                                   | Some c \<Rightarrow> truthy (get_prop c ''keepMounted''))
              then removeModal (ById modalId) s3
              else Inr s3))"

text \<open>
  The effect of \<open>createModal\<close>'s wrapper that tracks mounting: on mount it opens the modal
  when \<open>defaultOpen\<close> is set and records the identifier in \<open>ALREADY_MOUNTED\<close>; its cleanup
  deletes the record.
\<close>

definition mount_effect :: "bool \<Rightarrow> string \<Rightarrow> mstate \<Rightarrow> mstate result" where
  "mount_effect defaultOpen modalId s =
    (case (if defaultOpen
           then (case openCallback modalId None s of Inl e \<Rightarrow> Inl e | Inr (_, s1) \<Rightarrow> Inr s1)
           else Inr s) of
       Inl e \<Rightarrow> Inl e
     | Inr s2 \<Rightarrow> Inr (s2\<lparr>ALREADY_MOUNTED := AList.update modalId True (ALREADY_MOUNTED s2)\<rparr>))"

definition unmount_effect :: "string \<Rightarrow> mstate \<Rightarrow> mstate" where
  "unmount_effect modalId s = s\<lparr>ALREADY_MOUNTED := AList.delete modalId (ALREADY_MOUNTED s)\<rparr>"

section \<open>Sequences of calls\<close>

text \<open>
  Everything a caller, the view layer or the timer can do to the module state, as a
  datatype of calls, so that statements about "any later operation" quantify over lists
  of them. \<open>exec\<close> runs one call and keeps the state it leaves, also when it throws (the
  caller may catch the exception and go on); \<open>run\<close> runs a list of calls in order.
\<close>

datatype call =
    OpenModal modal_arg ModalConfig
  | CloseModal modal_arg
  | RemoveModal modal_arg
  | SetFlagsCall string "jsval dict"
  | Dispatch ModalAction
  | CloseAllModals
  | MarkClosed string
  | NotifyOpened string
  | FireTimer
  | CleanupModal string
  | CleanupAllModals
  | CleanupCallbacks string
  | CleanupAllCallbacks
  | RefClose string jsval
  | RefAfterOpened string
  | RefAfterClosed string
  | RefBeforeClosed string
  | HandlerOpen string "jsval dict option"
  | HandlerClose string jsval
  | HandlerDismiss string
  | HandlerRemove string
  | AnimationEnd string
  | MountEffect bool string
  | UnmountEffect string
  | GetUid
  | ResetUidSeed
  | GetModalId modal_arg
  | Register string nat jsval
  | Unregister string
  | SetDispatch dispatcher

definition ref_of :: "string \<Rightarrow> ModalRef" where
  "ref_of modalId = \<lparr>ref_modalId = modalId, ref_data = None, ref_disableClose = False\<rparr>"

definition after :: "'a result \<Rightarrow> ('a \<Rightarrow> mstate) \<Rightarrow> mstate" where
  "after r f = (case r of Inl (e, s) \<Rightarrow> s | Inr x \<Rightarrow> f x)"

fun exec :: "call \<Rightarrow> mstate \<Rightarrow> mstate" where
  "exec (OpenModal modal config) s = after (openModal modal config s) snd"
| "exec (CloseModal modal) s = after (closeModal modal s) snd"
| "exec (RemoveModal modal) s = after (removeModal modal s) id"
| "exec (SetFlagsCall modalId flags) s = after (setFlags modalId flags s) id"
| "exec (Dispatch action) s = after (dispatch action s) id"
| "exec CloseAllModals s = after (closeAllModals s) snd"
| "exec (MarkClosed modalId) s = markClosed modalId s"
| "exec (NotifyOpened modalId) s = notifyOpened modalId s"
| "exec FireTimer s = fire_timer s"
| "exec (CleanupModal modalId) s = cleanupModal modalId s"
| "exec CleanupAllModals s = cleanupAllModals s"
| "exec (CleanupCallbacks modalId) s = cleanupCallbacks modalId s"
| "exec CleanupAllCallbacks s = cleanupAllCallbacks s"
| "exec (RefClose modalId result) s = after (ref_close (ref_of modalId) result s) id"
| "exec (RefAfterOpened modalId) s = snd (ref_afterOpened (ref_of modalId) s)"
| "exec (RefAfterClosed modalId) s = snd (ref_afterClosed (ref_of modalId) s)"
| "exec (RefBeforeClosed modalId) s = snd (ref_beforeClosed (ref_of modalId) s)"
| "exec (HandlerOpen modalId data) s = after (openCallback modalId data s) snd"
| "exec (HandlerClose modalId result) s = after (closeCallback modalId result s) id"
| "exec (HandlerDismiss modalId) s = after (dismissCallback modalId s) id"
| "exec (HandlerRemove modalId) s = after (removeCallback modalId s) id"
| "exec (AnimationEnd modalId) s = after (onAnimationEnd modalId s) id"
| "exec (MountEffect defaultOpen modalId) s = after (mount_effect defaultOpen modalId s) id"
| "exec (UnmountEffect modalId) s = unmount_effect modalId s"
| "exec GetUid s = snd (getUid s)"
| "exec ResetUidSeed s = resetUidSeed s"
| "exec (GetModalId modal) s = snd (getModalId modal s)"
| "exec (Register ident c p) s = register ident c p s"
| "exec (Unregister ident) s = unregister ident s"
| "exec (SetDispatch fn) s = setDispatch fn s"

definition run :: "call list \<Rightarrow> mstate \<Rightarrow> mstate" where
  "run calls s = fold exec calls s"

section \<open>Invariants of the promise heap\<close>

text \<open>
  \<open>ledger_values\<close> lists the deferreds that the four callback tables can still resolve.
  A state is well-formed when no deferred is stored twice, every stored deferred has
  been allocated and the lifecycle table has each key once (as a JavaScript object
  does); the initial state is, and every call keeps it so.
\<close>

definition ledger_values :: "mstate \<Rightarrow> nat list" where
  "ledger_values s =
     map snd (modalCallbacks s) @ map snd (hideModalCallbacks s)
     @ map snd (openedCallbacks s) @ map snd (beforeClosedCallbacks s)"

definition well_formed :: "mstate \<Rightarrow> bool" where
  "well_formed s \<longleftrightarrow>
     distinct (ledger_values s) \<and> list_all (\<lambda>p. p < nextPromise s) (ledger_values s)
     \<and> distinct (map fst (modalStates s))"

definition deferred :: "mstate \<Rightarrow> nat set" where
  "deferred s = set (ledger_values s)"

text \<open>
  \<open>evolves s s'\<close>: what any call or sequence of calls may do to the promises that exist
  in \<open>s\<close>. Promises are only ever added; a promise of \<open>s\<close> keeps its state unless it was
  pending and stored in a callback table, in which case it may have been resolved; the
  deferreds stored in \<open>s'\<close> are stored in \<open>s\<close> or new; well-formedness is kept.
  \<open>adv\<close> adds that the identifier counter has not gone down.
\<close>

definition evolves :: "mstate \<Rightarrow> mstate \<Rightarrow> bool" where
  "evolves s s' \<longleftrightarrow>
     nextPromise s \<le> nextPromise s'
     \<and> (\<forall>p<nextPromise s.
           promises s' p = promises s p
           \<or> (promises s p = Pending \<and> p \<in> deferred s \<and> (\<exists>v. promises s' p = Resolved v)))
     \<and> deferred s' \<subseteq> deferred s \<union> {p. nextPromise s \<le> p}
     \<and> (well_formed s \<longrightarrow> well_formed s')"

definition adv :: "mstate \<Rightarrow> mstate \<Rightarrow> bool" where
  "adv s s' \<longleftrightarrow> evolves s s' \<and> uidSeed s \<le> uidSeed s'"

definition vals :: "nat dict \<Rightarrow> nat set" where
  "vals al = snd ` set al"

definition dvals :: "nat dict \<Rightarrow> bool" where
  "dvals al = distinct (map snd al)"


section \<open>Concrete inputs\<close>



definition no_config :: ModalConfig where
  "no_config =
    \<lparr>cfg_data = None, cfg_keepMounted = None, cfg_modalId = None, cfg_disableClose = None\<rparr>"

definition mounted_provider :: mstate where
  "mounted_provider = setDispatch ProviderDispatch initial"

definition one_open :: mstate where
  "one_open = run [OpenModal (ById ''m1'') no_config] mounted_provider"


definition c8_calls :: "call list" where
  "c8_calls = [GetModalId (ByComponent 0), GetUid]"


definition reopened_m1 :: mstate where
  "reopened_m1 =
    run [SetDispatch ProviderDispatch, OpenModal (ById ''m1'') no_config,
         CloseModal (ById ''m1''), OpenModal (ById ''m1'') no_config] initial"


section \<open>The reducer\<close>


lemma get_prop_Nil [simp]: "get_prop [] k = Undefined"
  by (simp add: get_prop_def)

lemma mount_effect_records:
  "mount_effect False modalId s
     = Inr (s\<lparr>ALREADY_MOUNTED := AList.update modalId True (ALREADY_MOUNTED s)\<rparr>)"
  "map_of (ALREADY_MOUNTED (s\<lparr>ALREADY_MOUNTED := AList.update modalId True (ALREADY_MOUNTED s)\<rparr>))
     modalId = Some True"
  "map_of (ALREADY_MOUNTED (unmount_effect modalId s)) modalId = None"
  by (simp_all add: mount_effect_def unmount_effect_def AList.update_conv' AList.delete_conv')






section \<open>What calls can do to promises\<close>

lemma deferred_alt:
  "deferred s = vals (modalCallbacks s) \<union> vals (hideModalCallbacks s)
     \<union> vals (openedCallbacks s) \<union> vals (beforeClosedCallbacks s)"
  by (auto simp: deferred_def ledger_values_def vals_def)

lemma well_formed_alt:
  "well_formed s \<longleftrightarrow>
     dvals (modalCallbacks s) \<and> dvals (hideModalCallbacks s)
     \<and> dvals (openedCallbacks s) \<and> dvals (beforeClosedCallbacks s)
     \<and> vals (modalCallbacks s) \<inter> vals (hideModalCallbacks s) = {}
     \<and> vals (modalCallbacks s) \<inter> vals (openedCallbacks s) = {}
     \<and> vals (modalCallbacks s) \<inter> vals (beforeClosedCallbacks s) = {}
     \<and> vals (hideModalCallbacks s) \<inter> vals (openedCallbacks s) = {}
     \<and> vals (hideModalCallbacks s) \<inter> vals (beforeClosedCallbacks s) = {}
     \<and> vals (openedCallbacks s) \<inter> vals (beforeClosedCallbacks s) = {}
     \<and> (\<forall>p\<in>deferred s. p < nextPromise s)
     \<and> distinct (map fst (modalStates s))"
  unfolding well_formed_def deferred_def ledger_values_def vals_def dvals_def list_all_iff
  by auto

lemma vals_updateD: "x \<in> vals (AList.update k v al) \<Longrightarrow> x = v \<or> x \<in> vals al"
  unfolding vals_def by (induction al) (auto split: if_splits)

lemma vals_deleteD: "x \<in> vals (AList.delete k al) \<Longrightarrow> x \<in> vals al"
  by (auto simp: vals_def AList.delete_eq)

lemma vals_map_of: "map_of al k = Some p \<Longrightarrow> p \<in> vals al"
  unfolding vals_def by (force dest: map_of_SomeD)

lemma dvals_delete: "dvals al \<Longrightarrow> dvals (AList.delete k al)"
  by (simp add: dvals_def AList.delete_eq distinct_map_filter)

lemma dvals_update: "dvals al \<Longrightarrow> v \<notin> vals al \<Longrightarrow> dvals (AList.update k v al)"
  unfolding dvals_def vals_def
proof (induction al)
  case Nil
  then show ?case by simp
next
  case (Cons a al)
  have "snd ` set (AList.update k v al) \<subseteq> insert v (snd ` set al)"
    using vals_updateD [of _ k v al] by (auto simp: vals_def)
  with Cons show ?case by (auto split: if_splits)
qed

lemma evolves_refl: "evolves s s"
  by (simp add: evolves_def)

lemma evolves_trans:
  assumes st: "evolves s t" and tu: "evolves t u"
  shows "evolves s u"
proof -
  have n: "nextPromise s \<le> nextPromise t" "nextPromise t \<le> nextPromise u"
    using st tu by (simp_all add: evolves_def)
  have d1: "deferred t \<subseteq> deferred s \<union> {p. nextPromise s \<le> p}"
    and d2: "deferred u \<subseteq> deferred t \<union> {p. nextPromise t \<le> p}"
    using st tu by (simp_all add: evolves_def)
  have "promises u p = promises s p
        \<or> (promises s p = Pending \<and> p \<in> deferred s \<and> (\<exists>v. promises u p = Resolved v))"
    if p: "p < nextPromise s" for p
  proof -
    from st p have a: "promises t p = promises s p
        \<or> (promises s p = Pending \<and> p \<in> deferred s \<and> (\<exists>v. promises t p = Resolved v))"
      by (simp add: evolves_def)
    from tu p n have b: "promises u p = promises t p
        \<or> (promises t p = Pending \<and> p \<in> deferred t \<and> (\<exists>v. promises u p = Resolved v))"
      by (simp add: evolves_def)
    from b show ?thesis
    proof
      assume "promises u p = promises t p"
      with a show ?thesis by auto
    next
      assume c: "promises t p = Pending \<and> p \<in> deferred t \<and> (\<exists>v. promises u p = Resolved v)"
      with d1 p have "p \<in> deferred s" by auto
      moreover from a c have "promises s p = Pending" by auto
      ultimately show ?thesis using c by auto
    qed
  qed
  moreover have "deferred u \<subseteq> deferred s \<union> {p. nextPromise s \<le> p}"
    using d1 d2 n by auto
  moreover have "well_formed s \<longrightarrow> well_formed u"
    using st tu by (simp add: evolves_def)
  ultimately show ?thesis using n by (simp add: evolves_def)
qed

lemma adv_refl: "adv s s"
  by (simp add: adv_def evolves_refl)

lemma adv_trans: "adv s t \<Longrightarrow> adv t u \<Longrightarrow> adv s u"
  unfolding adv_def using evolves_trans by (meson order_trans)

lemma adv_evolves: "adv s t \<Longrightarrow> evolves s t"
  by (simp add: adv_def)

lemma ev_symModalId: "adv s t \<Longrightarrow> adv s (t\<lparr>symModalId := x\<rparr>)"
  by (erule adv_trans) (simp add: adv_def evolves_def deferred_alt well_formed_alt)

lemma ev_dispatchFn: "adv s t \<Longrightarrow> adv s (t\<lparr>dispatchFn := x\<rparr>)"
  by (erule adv_trans) (simp add: adv_def evolves_def deferred_alt well_formed_alt)

lemma ev_ALREADY_MOUNTED: "adv s t \<Longrightarrow> adv s (t\<lparr>ALREADY_MOUNTED := x\<rparr>)"
  by (erule adv_trans) (simp add: adv_def evolves_def deferred_alt well_formed_alt)

lemma ev_MODAL_REGISTRY: "adv s t \<Longrightarrow> adv s (t\<lparr>MODAL_REGISTRY := x\<rparr>)"
  by (erule adv_trans) (simp add: adv_def evolves_def deferred_alt well_formed_alt)

lemma ev_modals: "adv s t \<Longrightarrow> adv s (t\<lparr>modals := x\<rparr>)"
  by (erule adv_trans) (simp add: adv_def evolves_def deferred_alt well_formed_alt)

lemma ev_objects: "adv s t \<Longrightarrow> adv s (t\<lparr>objects := x\<rparr>)"
  by (erule adv_trans) (simp add: adv_def evolves_def deferred_alt well_formed_alt)

lemma ev_dispatched: "adv s t \<Longrightarrow> adv s (t\<lparr>dispatched := x\<rparr>)"
  by (erule adv_trans) (simp add: adv_def evolves_def deferred_alt well_formed_alt)

lemma ev_update_modalStates:
  "adv s t \<Longrightarrow> adv s (t\<lparr>modalStates := AList.update k v (modalStates t)\<rparr>)"
  by (erule adv_trans) (simp add: adv_def evolves_def deferred_alt well_formed_alt distinct_update)

lemma ev_delete_modalStates:
  "adv s t \<Longrightarrow> adv s (t\<lparr>modalStates := AList.delete k (modalStates t)\<rparr>)"
  by (erule adv_trans) (simp add: adv_def evolves_def deferred_alt well_formed_alt distinct_delete)

lemma ev_closedPromises: "adv s t \<Longrightarrow> adv s (t\<lparr>closedPromises := x\<rparr>)"
  by (erule adv_trans) (simp add: adv_def evolves_def deferred_alt well_formed_alt)

lemma ev_timers: "adv s t \<Longrightarrow> adv s (t\<lparr>timers := x\<rparr>)"
  by (erule adv_trans) (simp add: adv_def evolves_def deferred_alt well_formed_alt)

lemma ev_delete_modalCallbacks:
  "adv s t \<Longrightarrow> adv s (t\<lparr>modalCallbacks := AList.delete k (modalCallbacks t)\<rparr>)"
  by (erule adv_trans)
    (auto simp: adv_def evolves_def deferred_alt well_formed_alt dest: vals_deleteD intro: dvals_delete)

lemma ev_resolve_entry_modalCallbacks:
  "adv s t \<Longrightarrow> adv s (resolve_entry (map_of (modalCallbacks t) k) v t)"
  by (erule adv_trans)
    (auto simp: adv_def evolves_def deferred_alt well_formed_alt resolve_entry_def resolve_def
      split: option.splits pstate.splits dest: vals_map_of)

lemma ev_create_modalCallbacks:
  "adv s t \<Longrightarrow>
   adv s ((snd (createDeferredPromise t))
     \<lparr>modalCallbacks := AList.update k (fst (createDeferredPromise t))
                  (modalCallbacks (snd (createDeferredPromise t)))\<rparr>)"
  by (erule adv_trans)
    (auto simp: adv_def evolves_def deferred_alt well_formed_alt createDeferredPromise_def ball_Un
      dest!: vals_updateD intro!: dvals_update)

lemma ev_delete_hideModalCallbacks:
  "adv s t \<Longrightarrow> adv s (t\<lparr>hideModalCallbacks := AList.delete k (hideModalCallbacks t)\<rparr>)"
  by (erule adv_trans)
    (auto simp: adv_def evolves_def deferred_alt well_formed_alt dest: vals_deleteD intro: dvals_delete)

lemma ev_resolve_entry_hideModalCallbacks:
  "adv s t \<Longrightarrow> adv s (resolve_entry (map_of (hideModalCallbacks t) k) v t)"
  by (erule adv_trans)
    (auto simp: adv_def evolves_def deferred_alt well_formed_alt resolve_entry_def resolve_def
      split: option.splits pstate.splits dest: vals_map_of)

lemma ev_create_hideModalCallbacks:
  "adv s t \<Longrightarrow>
   adv s ((snd (createDeferredPromise t))
     \<lparr>hideModalCallbacks := AList.update k (fst (createDeferredPromise t))
                  (hideModalCallbacks (snd (createDeferredPromise t)))\<rparr>)"
  by (erule adv_trans)
    (auto simp: adv_def evolves_def deferred_alt well_formed_alt createDeferredPromise_def ball_Un
      dest!: vals_updateD intro!: dvals_update)

lemma ev_delete_openedCallbacks:
  "adv s t \<Longrightarrow> adv s (t\<lparr>openedCallbacks := AList.delete k (openedCallbacks t)\<rparr>)"
  by (erule adv_trans)
    (auto simp: adv_def evolves_def deferred_alt well_formed_alt dest: vals_deleteD intro: dvals_delete)

lemma ev_resolve_entry_openedCallbacks:
  "adv s t \<Longrightarrow> adv s (resolve_entry (map_of (openedCallbacks t) k) v t)"
  by (erule adv_trans)
    (auto simp: adv_def evolves_def deferred_alt well_formed_alt resolve_entry_def resolve_def
      split: option.splits pstate.splits dest: vals_map_of)

lemma ev_create_openedCallbacks:
  "adv s t \<Longrightarrow>
   adv s ((snd (createDeferredPromise t))
     \<lparr>openedCallbacks := AList.update k (fst (createDeferredPromise t))
                  (openedCallbacks (snd (createDeferredPromise t)))\<rparr>)"
  by (erule adv_trans)
    (auto simp: adv_def evolves_def deferred_alt well_formed_alt createDeferredPromise_def ball_Un
      dest!: vals_updateD intro!: dvals_update)

lemma ev_delete_beforeClosedCallbacks:
  "adv s t \<Longrightarrow> adv s (t\<lparr>beforeClosedCallbacks := AList.delete k (beforeClosedCallbacks t)\<rparr>)"
  by (erule adv_trans)
    (auto simp: adv_def evolves_def deferred_alt well_formed_alt dest: vals_deleteD intro: dvals_delete)

lemma ev_resolve_entry_beforeClosedCallbacks:
  "adv s t \<Longrightarrow> adv s (resolve_entry (map_of (beforeClosedCallbacks t) k) v t)"
  by (erule adv_trans)
    (auto simp: adv_def evolves_def deferred_alt well_formed_alt resolve_entry_def resolve_def
      split: option.splits pstate.splits dest: vals_map_of)

lemma ev_create_beforeClosedCallbacks:
  "adv s t \<Longrightarrow>
   adv s ((snd (createDeferredPromise t))
     \<lparr>beforeClosedCallbacks := AList.update k (fst (createDeferredPromise t))
                  (beforeClosedCallbacks (snd (createDeferredPromise t)))\<rparr>)"
  by (erule adv_trans)
    (auto simp: adv_def evolves_def deferred_alt well_formed_alt createDeferredPromise_def ball_Un
      dest!: vals_updateD intro!: dvals_update)

lemma after_Inl [simp]: "after (Inl (e, s)) f = s"
  by (simp add: after_def)

lemma after_Inr [simp]: "after (Inr x) f = f x"
  by (simp add: after_def)

lemma ev_after_Inr_snd: "adv s t \<Longrightarrow> adv s (after (Inr (x, t)) snd)"
  by simp

lemma ev_after_Inr_id: "adv s t \<Longrightarrow> adv s (after (Inr t) id)"
  by simp

lemma ev_option_case:
  "(opt = None \<Longrightarrow> adv s (after r1 f)) \<Longrightarrow>
   (\<And>d. opt = Some d \<Longrightarrow> adv s (after (r2 d) f)) \<Longrightarrow>
   adv s (after (case opt of None \<Rightarrow> r1 | Some d \<Rightarrow> r2 d) f)"
  by (cases opt) simp_all

lemma ev_if:
  "(c \<Longrightarrow> adv s (after r1 f)) \<Longrightarrow> (\<not> c \<Longrightarrow> adv s (after r2 f)) \<Longrightarrow>
   adv s (after (if c then r1 else r2) f)"
  by simp

lemma ev_state_if:
  "(c \<Longrightarrow> adv s t1) \<Longrightarrow> (\<not> c \<Longrightarrow> adv s t2) \<Longrightarrow> adv s (if c then t1 else t2)"
  by simp

lemma ev_dispatch_bind:
  assumes "adv s t" and "\<And>t'. adv s t' \<Longrightarrow> adv s (after (k t') f)"
  shows "adv s (after (case dispatch a t of Inl e \<Rightarrow> Inl e | Inr x \<Rightarrow> k x) f)"
proof (cases "dispatchFn t")
  case NoProvider
  then show ?thesis using assms(1) by (simp add: dispatch_def)
next
  case ProviderDispatch
  have "adv s (t\<lparr>modals := r, objects := h, dispatched := d\<rparr>)" for r h d
    by (intro ev_modals ev_objects ev_dispatched assms(1))
  then show ?thesis using ProviderDispatch assms(2)
    by (simp add: dispatch_def case_prod_beta)
qed

lemma ev_dispatch: "adv s t \<Longrightarrow> adv s (after (dispatch a t) id)"
  using ev_dispatch_bind [of s t "\<lambda>x. Inr x" id a] by (cases "dispatch a t") auto

lemma ev_bind:
  assumes "adv s (after r id)" and "\<And>t'. adv s t' \<Longrightarrow> adv s (after (k t') f)"
  shows "adv s (after (case r of Inl e \<Rightarrow> Inl e | Inr x \<Rightarrow> k x) f)"
  using assms by (cases r) auto

lemma ev_getUid: "adv s t \<Longrightarrow> adv s (snd (getUid t))"
  by (erule adv_trans)
    (simp add: adv_def evolves_def deferred_alt well_formed_alt getUid_def incr_number_def)

lemma ev_getModalId: "adv s t \<Longrightarrow> adv s (snd (getModalId m t))"
  unfolding getModalId_def Let_def case_prod_beta
  by (auto split: modal_arg.splits option.splits intro!: ev_symModalId ev_getUid)

lemma ev_drop:
  "adv s (after r snd) \<Longrightarrow>
   adv s (after (case r of Inl e \<Rightarrow> Inl e | Inr x \<Rightarrow> Inr (snd x)) id)"
  by (cases r) auto

lemma ev_fold:
  assumes "\<And>k t. adv s t \<Longrightarrow> adv s (g k t)" and "adv s t"
  shows "adv s (fold g ks t)"
  using assms(2) by (induction ks arbitrary: t) (simp_all add: assms(1))

lemma ev_resolve_delete_main:
  "adv s t \<Longrightarrow>
   adv s (case map_of (modalCallbacks t) k of
                None \<Rightarrow> t
              | Some p \<Rightarrow>
                  (resolve p v t)\<lparr>modalCallbacks := AList.delete k (modalCallbacks (resolve p v t))\<rparr>)"
proof (cases "map_of (modalCallbacks t) k")
  case None
  then show "adv s t \<Longrightarrow> ?thesis" by simp
next
  case (Some p)
  assume "adv s t"
  then have "adv s (resolve_entry (map_of (modalCallbacks t) k) v t)"
    by (rule ev_resolve_entry_modalCallbacks)
  then have "adv s (resolve p v t)" using Some by (simp add: resolve_entry_def)
  then show ?thesis using Some by (simp add: ev_delete_modalCallbacks)
qed

lemma ev_closeModal: "adv s t \<Longrightarrow> adv s (after (closeModal m t) snd)"
  unfolding closeModal_def Let_def case_prod_beta
  by (intro ev_dispatch_bind ev_option_case ev_after_Inr_snd ev_create_hideModalCallbacks
      ev_resolve_delete_main ev_update_modalStates ev_getModalId)

lemma ev_ref_close: "adv s t \<Longrightarrow> adv s (after (ref_close r v t) id)"
  unfolding ref_close_def Let_def case_prod_beta
  by (intro ev_if ev_after_Inr_id ev_drop ev_closeModal ev_delete_modalCallbacks
      ev_resolve_entry_modalCallbacks ev_delete_beforeClosedCallbacks
      ev_resolve_entry_beforeClosedCallbacks ev_update_modalStates)

lemma ev_register: "adv s t \<Longrightarrow> adv s (register i c p t)"
  unfolding register_def by (auto split: option.splits intro: ev_MODAL_REGISTRY)

lemma ev_open_id:
  "adv s t \<Longrightarrow>
   adv s (snd (case opt of Some given \<Rightarrow> (given, t) | None \<Rightarrow> getModalId m t))"
  by (cases opt) (simp_all add: ev_getModalId)

lemma ev_open_register:
  "adv s t \<Longrightarrow>
   adv s (case m of ById x \<Rightarrow> t
              | ByComponent c \<Rightarrow> if cnd then register i c u t else t)"
  by (cases m) (simp_all add: ev_register)

lemma ev_openModal: "adv s t \<Longrightarrow> adv s (after (openModal m config t) snd)"
  unfolding openModal_def Let_def case_prod_beta
  by (intro ev_bind ev_dispatch ev_if ev_after_Inr_snd ev_after_Inr_id
      ev_create_modalCallbacks ev_create_openedCallbacks ev_create_beforeClosedCallbacks
      ev_closedPromises ev_update_modalStates ev_open_register ev_open_id)

lemma ev_cleanupModal: "adv s t \<Longrightarrow> adv s (cleanupModal k t)"
  by (erule adv_trans)
    (auto simp: adv_def evolves_def deferred_alt well_formed_alt cleanupModal_def distinct_delete
      dest: vals_deleteD intro: dvals_delete)

lemma ev_cleanupCallbacks: "adv s t \<Longrightarrow> adv s (cleanupCallbacks k t)"
  by (erule adv_trans)
    (auto simp: adv_def evolves_def deferred_alt well_formed_alt cleanupCallbacks_def
      dest: vals_deleteD intro: dvals_delete)

lemma ev_cleanupAllCallbacks: "adv s t \<Longrightarrow> adv s (cleanupAllCallbacks t)"
  unfolding cleanupAllCallbacks_def Let_def
  by (intro ev_fold ev_delete_modalCallbacks ev_delete_hideModalCallbacks)

lemma ev_cleanupAllModals: "adv s t \<Longrightarrow> adv s (cleanupAllModals t)"
  unfolding cleanupAllModals_def by (intro ev_fold ev_cleanupModal)

lemma ev_removeModal: "adv s t \<Longrightarrow> adv s (after (removeModal m t) id)"
  unfolding removeModal_def Let_def case_prod_beta
  by (intro ev_bind ev_dispatch ev_after_Inr_id ev_cleanupModal
      ev_resolve_entry_modalCallbacks ev_resolve_entry_hideModalCallbacks
      ev_resolve_entry_beforeClosedCallbacks ev_resolve_entry_openedCallbacks ev_getModalId)

lemma ev_setFlags: "adv s t \<Longrightarrow> adv s (after (setFlags k flags t) id)"
  unfolding setFlags_def by (rule ev_dispatch)

lemma ev_closeAll_body: "adv s t \<Longrightarrow> adv s (after (closeAll_body k t) snd)"
  unfolding closeAll_body_def Let_def
  by (intro ev_closeModal ev_delete_modalCallbacks ev_resolve_entry_modalCallbacks
      ev_delete_beforeClosedCallbacks ev_resolve_entry_beforeClosedCallbacks ev_update_modalStates)

lemma ev_closeAll_loop: "adv s t \<Longrightarrow> adv s (after (closeAll_loop ks acc t) snd)"
proof (induction ks arbitrary: acc t)
  case Nil
  then show ?case by simp
next
  case (Cons k ks)
  from Cons.prems have b: "adv s (after (closeAll_body k t) snd)"
    by (rule ev_closeAll_body)
  show ?case
  proof (cases "closeAll_body k t")
    case (Inl e)
    with b show ?thesis by (cases e) simp
  next
    case (Inr x)
    with b have "adv s (snd x)" by simp
    from Cons.IH [OF this] show ?thesis using Inr by (simp add: case_prod_beta)
  qed
qed

lemma ev_closeAllModals: "adv s t \<Longrightarrow> adv s (after (closeAllModals t) snd)"
  unfolding closeAllModals_def by (rule ev_closeAll_loop)

lemma ev_markClosed: "adv s t \<Longrightarrow> adv s (markClosed k t)"
  unfolding markClosed_def by (intro ev_timers ev_update_modalStates)

lemma ev_cleanup_callback: "adv s t \<Longrightarrow> adv s (cleanup_callback k t)"
  unfolding cleanup_callback_def
  by (intro ev_state_if ev_closedPromises ev_delete_modalStates)

lemma ev_fire_timer: "adv s t \<Longrightarrow> adv s (fire_timer t)"
  unfolding fire_timer_def
  by (cases "timers t") (simp_all add: ev_cleanup_callback ev_timers)

lemma ev_notifyOpened: "adv s t \<Longrightarrow> adv s (notifyOpened k t)"
  unfolding notifyOpened_def Let_def
  by (intro ev_delete_openedCallbacks ev_resolve_entry_openedCallbacks)

lemma ev_Promise_resolve: "adv s t \<Longrightarrow> adv s (snd (Promise_resolve v t))"
  by (erule adv_trans)
    (auto simp: adv_def evolves_def deferred_alt well_formed_alt Promise_resolve_def ball_Un)

lemma ev_ref_afterOpened: "adv s t \<Longrightarrow> adv s (snd (ref_afterOpened r t))"
  unfolding ref_afterOpened_def by (auto split: option.splits intro: ev_Promise_resolve)

lemma ev_ref_afterClosed: "adv s t \<Longrightarrow> adv s (snd (ref_afterClosed r t))"
  unfolding ref_afterClosed_def by (auto split: option.splits intro: ev_Promise_resolve)

lemma ev_ref_beforeClosed: "adv s t \<Longrightarrow> adv s (snd (ref_beforeClosed r t))"
  unfolding ref_beforeClosed_def by (auto split: option.splits intro: ev_Promise_resolve)

lemma ev_openCallback: "adv s t \<Longrightarrow> adv s (after (openCallback k d t) snd)"
proof -
  assume a: "adv s t"
  have o: "adv s (after (openModal (ById k) c t) snd)" for c
    using a by (rule ev_openModal)
  show ?thesis
    unfolding openCallback_def
    using o [of "\<lparr>cfg_data = d, cfg_keepMounted = None, cfg_modalId = None,
             cfg_disableClose = None\<rparr>"]
    by (auto split: sum.splits intro: ev_ref_afterClosed)
qed

lemma ev_closeCallback: "adv s t \<Longrightarrow> adv s (after (closeCallback k v t) id)"
  unfolding closeCallback_def Let_def case_prod_beta
  by (intro ev_drop ev_closeModal ev_delete_modalCallbacks ev_resolve_entry_modalCallbacks)

lemma ev_dismissCallback: "adv s t \<Longrightarrow> adv s (after (dismissCallback k t) id)"
  unfolding dismissCallback_def Let_def case_prod_beta
  by (intro ev_drop ev_closeModal ev_delete_modalCallbacks ev_resolve_entry_modalCallbacks)

lemma ev_removeCallback: "adv s t \<Longrightarrow> adv s (after (removeCallback k t) id)"
  unfolding removeCallback_def by (rule ev_removeModal)

lemma ev_onAnimationEnd: "adv s t \<Longrightarrow> adv s (after (onAnimationEnd k t) id)"
  unfolding onAnimationEnd_def Let_def
  by (intro ev_if ev_after_Inr_id ev_notifyOpened ev_removeModal
      ev_delete_hideModalCallbacks ev_resolve_entry_hideModalCallbacks ev_markClosed)

lemma ev_mount_effect: "adv s t \<Longrightarrow> adv s (after (mount_effect b k t) id)"
  unfolding mount_effect_def case_prod_beta
  by (intro ev_bind ev_if ev_drop ev_openCallback ev_after_Inr_id ev_ALREADY_MOUNTED)

lemma ev_unmount_effect: "adv s t \<Longrightarrow> adv s (unmount_effect k t)"
  unfolding unmount_effect_def by (rule ev_ALREADY_MOUNTED)

lemma ev_unregister: "adv s t \<Longrightarrow> adv s (unregister k t)"
  unfolding unregister_def by (rule ev_MODAL_REGISTRY)

lemma ev_setDispatch: "adv s t \<Longrightarrow> adv s (setDispatch fn t)"
  unfolding setDispatch_def by (rule ev_dispatchFn)

lemmas ev_calls = ev_openModal ev_closeModal ev_removeModal ev_setFlags ev_dispatch
  ev_closeAllModals ev_markClosed ev_notifyOpened ev_fire_timer ev_cleanupModal
  ev_cleanupAllModals ev_cleanupCallbacks ev_cleanupAllCallbacks ev_ref_close
  ev_ref_afterOpened ev_ref_afterClosed ev_ref_beforeClosed ev_openCallback ev_closeCallback
  ev_dismissCallback ev_removeCallback ev_onAnimationEnd ev_mount_effect ev_unmount_effect
  ev_getUid ev_getModalId ev_register ev_unregister ev_setDispatch

lemma adv_exec: "c \<noteq> ResetUidSeed \<Longrightarrow> adv s (exec c s)"
  by (cases c) (simp_all add: ev_calls adv_refl)

lemma evolves_exec: "evolves s (exec c s)"
proof (cases "c = ResetUidSeed")
  case True
  then show ?thesis
    by (simp add: resetUidSeed_def evolves_def deferred_alt well_formed_alt)
next
  case False
  then show ?thesis by (simp add: adv_exec adv_evolves)
qed

lemma evolves_run: "evolves s (run cs s)"
  unfolding run_def
proof (induction cs arbitrary: s)
  case Nil
  then show ?case by (simp add: evolves_refl)
next
  case (Cons c cs)
  show ?case using evolves_trans [OF evolves_exec Cons.IH] by simp
qed

lemma adv_run: "ResetUidSeed \<notin> set cs \<Longrightarrow> adv s (run cs s)"
  unfolding run_def
proof (induction cs arbitrary: s)
  case Nil
  then show ?case by (simp add: adv_refl)
next
  case (Cons c cs)
  then have c: "c \<noteq> ResetUidSeed" and cs: "ResetUidSeed \<notin> set cs" by auto
  from adv_trans [OF adv_exec [OF c] Cons.IH [OF cs]] show ?case by simp
qed

lemma well_formed_initial: "well_formed initial"
  by (simp add: well_formed_def ledger_values_def initial_def)

lemma well_formed_run: "well_formed s \<Longrightarrow> well_formed (run cs s)"
  using evolves_run [of s cs] by (simp add: evolves_def)


section \<open>Symbolic execution of single calls\<close>

lemma resolve_alt:
  "resolve p v s =
     s\<lparr>promises := (promises s)(p := (case promises s p of Pending \<Rightarrow> Resolved v | st \<Rightarrow> st))\<rparr>"
  by (cases "promises s p") (simp_all add: resolve_def fun_upd_idem)

lemma resolve_entry_alt:
  "resolve_entry e v s =
     s\<lparr>promises := (\<lambda>q. if e = Some q \<and> promises s q = Pending then Resolved v else promises s q)\<rparr>"
  by (cases e) (auto simp: resolve_entry_def resolve_alt fun_eq_iff split: pstate.splits)

lemma dispatch_installed:
  "dispatchFn s = ProviderDispatch \<Longrightarrow>
     dispatch a s =
       Inr (s\<lparr>modals := fst (reducer (ALREADY_MOUNTED s) (modals s) a (objects s)),
              objects := snd (reducer (ALREADY_MOUNTED s) (modals s) a (objects s)),
              dispatched := dispatched s @ [a]\<rparr>)"
  by (simp add: dispatch_def split: prod.splits)

lemma getModalId_ById [simp]: "getModalId (ById k) s = (k, s)"
  by (simp add: getModalId_def)


lemma getModalId_frame [simp]:
  "dispatchFn (snd (getModalId m s)) = dispatchFn s"
  "promises (snd (getModalId m s)) = promises s"
  "nextPromise (snd (getModalId m s)) = nextPromise s"
  "modalCallbacks (snd (getModalId m s)) = modalCallbacks s"
  "hideModalCallbacks (snd (getModalId m s)) = hideModalCallbacks s"
  "openedCallbacks (snd (getModalId m s)) = openedCallbacks s"
  "beforeClosedCallbacks (snd (getModalId m s)) = beforeClosedCallbacks s"
  "modalStates (snd (getModalId m s)) = modalStates s"
  "closedPromises (snd (getModalId m s)) = closedPromises s"
  "timers (snd (getModalId m s)) = timers s"
  "modals (snd (getModalId m s)) = modals s"
  "objects (snd (getModalId m s)) = objects s"
  "ALREADY_MOUNTED (snd (getModalId m s)) = ALREADY_MOUNTED s"
  "dispatched (snd (getModalId m s)) = dispatched s"
  by (simp_all add: getModalId_def getUid_def Let_def case_prod_beta
      split: modal_arg.splits option.splits)

lemma register_frame [simp]:
  "dispatchFn (register i c p s) = dispatchFn s"
  "promises (register i c p s) = promises s"
  "nextPromise (register i c p s) = nextPromise s"
  "modalCallbacks (register i c p s) = modalCallbacks s"
  "hideModalCallbacks (register i c p s) = hideModalCallbacks s"
  "openedCallbacks (register i c p s) = openedCallbacks s"
  "beforeClosedCallbacks (register i c p s) = beforeClosedCallbacks s"
  "modalStates (register i c p s) = modalStates s"
  "closedPromises (register i c p s) = closedPromises s"
  "timers (register i c p s) = timers s"
  "modals (register i c p s) = modals s"
  "objects (register i c p s) = objects s"
  "ALREADY_MOUNTED (register i c p s) = ALREADY_MOUNTED s"
  "dispatched (register i c p s) = dispatched s"
  by (simp_all add: register_def split: option.splits)

lemma open_id_frame [simp]:
  "dispatchFn (snd (case opt of Some given \<Rightarrow> (given, s) | None \<Rightarrow> getModalId m s)) = dispatchFn s"
  "promises (snd (case opt of Some given \<Rightarrow> (given, s) | None \<Rightarrow> getModalId m s)) = promises s"
  "nextPromise (snd (case opt of Some given \<Rightarrow> (given, s) | None \<Rightarrow> getModalId m s)) = nextPromise s"
  "modalCallbacks (snd (case opt of Some given \<Rightarrow> (given, s) | None \<Rightarrow> getModalId m s)) = modalCallbacks s"
  "hideModalCallbacks (snd (case opt of Some given \<Rightarrow> (given, s) | None \<Rightarrow> getModalId m s)) = hideModalCallbacks s"
  "openedCallbacks (snd (case opt of Some given \<Rightarrow> (given, s) | None \<Rightarrow> getModalId m s)) = openedCallbacks s"
  "beforeClosedCallbacks (snd (case opt of Some given \<Rightarrow> (given, s) | None \<Rightarrow> getModalId m s)) = beforeClosedCallbacks s"
  "modalStates (snd (case opt of Some given \<Rightarrow> (given, s) | None \<Rightarrow> getModalId m s)) = modalStates s"
  "closedPromises (snd (case opt of Some given \<Rightarrow> (given, s) | None \<Rightarrow> getModalId m s)) = closedPromises s"
  "timers (snd (case opt of Some given \<Rightarrow> (given, s) | None \<Rightarrow> getModalId m s)) = timers s"
  by (cases opt; simp)+

lemma open_register_frame [simp]:
  "dispatchFn (case m of ById x \<Rightarrow> s | ByComponent c \<Rightarrow> if cnd then register i c u s else s) = dispatchFn s"
  "promises (case m of ById x \<Rightarrow> s | ByComponent c \<Rightarrow> if cnd then register i c u s else s) = promises s"
  "nextPromise (case m of ById x \<Rightarrow> s | ByComponent c \<Rightarrow> if cnd then register i c u s else s) = nextPromise s"
  "modalCallbacks (case m of ById x \<Rightarrow> s | ByComponent c \<Rightarrow> if cnd then register i c u s else s) = modalCallbacks s"
  "hideModalCallbacks (case m of ById x \<Rightarrow> s | ByComponent c \<Rightarrow> if cnd then register i c u s else s) = hideModalCallbacks s"
  "openedCallbacks (case m of ById x \<Rightarrow> s | ByComponent c \<Rightarrow> if cnd then register i c u s else s) = openedCallbacks s"
  "beforeClosedCallbacks (case m of ById x \<Rightarrow> s | ByComponent c \<Rightarrow> if cnd then register i c u s else s) = beforeClosedCallbacks s"
  "modalStates (case m of ById x \<Rightarrow> s | ByComponent c \<Rightarrow> if cnd then register i c u s else s) = modalStates s"
  "closedPromises (case m of ById x \<Rightarrow> s | ByComponent c \<Rightarrow> if cnd then register i c u s else s) = closedPromises s"
  "timers (case m of ById x \<Rightarrow> s | ByComponent c \<Rightarrow> if cnd then register i c u s else s) = timers s"
  by (cases m; simp)+

lemma dispatch_if_installed:
  "dispatchFn t = ProviderDispatch \<Longrightarrow>
   (if c then dispatch a t else Inr t) =
     Inr (t\<lparr>modals := (if c then fst (reducer (ALREADY_MOUNTED t) (modals t) a (objects t))
                        else modals t),
            objects := (if c then snd (reducer (ALREADY_MOUNTED t) (modals t) a (objects t))
                        else objects t),
            dispatched := (if c then dispatched t @ [a] else dispatched t)\<rparr>)"
  by (simp add: dispatch_installed)

lemma openModal_result:
  assumes "dispatchFn s = ProviderDispatch" and "openModal modal config s = Inr (r, s')"
  shows "nextPromise s' = nextPromise s + 3"
    and "modalCallbacks s' = AList.update (ref_modalId r) (nextPromise s) (modalCallbacks s)"
    and "closedPromises s' = AList.update (ref_modalId r) (nextPromise s) (closedPromises s)"
    and "openedCallbacks s' = AList.update (ref_modalId r) (nextPromise s + 1) (openedCallbacks s)"
    and "beforeClosedCallbacks s'
          = AList.update (ref_modalId r) (nextPromise s + 2) (beforeClosedCallbacks s)"
    and "hideModalCallbacks s' = hideModalCallbacks s"
    and "modalStates s' = AList.update (ref_modalId r) Open (modalStates s)"
    and "promises s' = (promises s)(nextPromise s := Pending, nextPromise s + 1 := Pending,
                                    nextPromise s + 2 := Pending)"
    and "dispatchFn s' = ProviderDispatch"
    and "timers s' = timers s"
proof -
  from assms have "r = fst (projr (openModal modal config s))" "s' = snd (projr (openModal modal config s))"
    by simp_all
  then show "nextPromise s' = nextPromise s + 3"
    and "modalCallbacks s' = AList.update (ref_modalId r) (nextPromise s) (modalCallbacks s)"
    and "closedPromises s' = AList.update (ref_modalId r) (nextPromise s) (closedPromises s)"
    and "openedCallbacks s' = AList.update (ref_modalId r) (nextPromise s + 1) (openedCallbacks s)"
    and "beforeClosedCallbacks s'
          = AList.update (ref_modalId r) (nextPromise s + 2) (beforeClosedCallbacks s)"
    and "hideModalCallbacks s' = hideModalCallbacks s"
    and "modalStates s' = AList.update (ref_modalId r) Open (modalStates s)"
    and "promises s' = (promises s)(nextPromise s := Pending, nextPromise s + 1 := Pending,
                                    nextPromise s + 2 := Pending)"
    and "dispatchFn s' = ProviderDispatch"
    and "timers s' = timers s"
    using assms(1)
    by (simp_all add: openModal_def Let_def case_prod_beta dispatch_installed
        dispatch_if_installed createDeferredPromise_def)
qed


lemma openModal_ok:
  "dispatchFn s = ProviderDispatch \<Longrightarrow> \<not> isl (openModal modal config s)"
  by (simp add: openModal_def Let_def case_prod_beta dispatch_installed dispatch_if_installed)



lemma notifyOpened_frame [simp]:
  "dispatchFn (notifyOpened k s) = dispatchFn s"
  "nextPromise (notifyOpened k s) = nextPromise s"
  "modalCallbacks (notifyOpened k s) = modalCallbacks s"
  "hideModalCallbacks (notifyOpened k s) = hideModalCallbacks s"
  "beforeClosedCallbacks (notifyOpened k s) = beforeClosedCallbacks s"
  "modalStates (notifyOpened k s) = modalStates s"
  "closedPromises (notifyOpened k s) = closedPromises s"
  "openedCallbacks (notifyOpened k s) = AList.delete k (openedCallbacks s)"
  "promises (notifyOpened k s) =
     (\<lambda>q. if map_of (openedCallbacks s) k = Some q \<and> promises s q = Pending
          then Resolved Undefined else promises s q)"
  by (simp_all add: notifyOpened_def Let_def resolve_entry_alt)

section \<open>The lifecycle state\<close>







section \<open>Removing a modal\<close>



section \<open>Generated identifiers\<close>

lemma digit_cases: "(a::nat) < 10 \<Longrightarrow> a \<in> {0, 1, 2, 3, 4, 5, 6, 7, 8, 9}"
  by auto

lemma digit_inj:
  assumes "a < 10" and "b < 10" and "''0123456789'' ! a = ''0123456789'' ! b"
  shows "a = b"
  using digit_cases [OF assms(1)] digit_cases [OF assms(2)] assms(3)
  by (elim insertE emptyE; simp)

lemma string_of_nat_nonempty: "string_of_nat n \<noteq> []"
  by (subst string_of_nat.simps) simp

lemma string_of_nat_inj: "string_of_nat m = string_of_nat n \<Longrightarrow> m = n"
proof (induction m arbitrary: n rule: string_of_nat.induct)
  case (1 m)
  show ?case
  proof (cases "m < 10")
    case True
    show ?thesis
    proof (cases "n < 10")
      case n: True
      from "1.prems" True n have "''0123456789'' ! m = ''0123456789'' ! n"
        by (simp add: string_of_nat.simps [of m] string_of_nat.simps [of n])
      with True n show ?thesis by (rule digit_inj)
    next
      case False
      with "1.prems" True have "[''0123456789'' ! m]
          = string_of_nat (n div 10) @ [''0123456789'' ! (n mod 10)]"
        by (simp add: string_of_nat.simps [of m] string_of_nat.simps [of n])
      then show ?thesis using string_of_nat_nonempty [of "n div 10"] by simp
    qed
  next
    case False
    show ?thesis
    proof (cases "n < 10")
      case True
      with "1.prems" False have "string_of_nat (m div 10) @ [''0123456789'' ! (m mod 10)]
          = [''0123456789'' ! n]"
        by (simp add: string_of_nat.simps [of m] string_of_nat.simps [of n])
      then show ?thesis using string_of_nat_nonempty [of "m div 10"] by simp
    next
      case n: False
      from "1.prems" False n have e: "string_of_nat (m div 10) @ [''0123456789'' ! (m mod 10)]
          = string_of_nat (n div 10) @ [''0123456789'' ! (n mod 10)]"
        by (simp add: string_of_nat.simps [of m] string_of_nat.simps [of n])
      then have q: "string_of_nat (m div 10) = string_of_nat (n div 10)"
        and d: "''0123456789'' ! (m mod 10) = ''0123456789'' ! (n mod 10)"
        by simp_all
      from "1.IH" [OF False q] have "m div 10 = n div 10" .
      moreover from d have "m mod 10 = n mod 10"
        by (intro digit_inj) simp_all
      ultimately show ?thesis by (metis div_mult_mod_eq)
    qed
  qed
qed

text \<open>
  Claim C8. While the counter is below \<open>2^53\<close> (where a JavaScript number stops counting
  in steps of one), a call of \<open>getUid\<close> strictly increases the counter, no call other
  than \<open>resetUidSeed\<close> ever decreases it, and therefore the identifier returned by any
  later call of \<open>getUid\<close>, with any calls except \<open>resetUidSeed\<close> in between, differs from
  the one returned now. \<open>resetUidSeed\<close> sets the counter back to 0.
\<close>

theorem getUid_fresh:
  assumes "uidSeed s < 2 ^ 53" and "ResetUidSeed \<notin> set calls"
  shows "fst (getUid (run calls (snd (getUid s)))) \<noteq> fst (getUid s)
       \<and> uidSeed s < uidSeed (snd (getUid s))
       \<and> uidSeed (snd (getUid s)) \<le> uidSeed (run calls (snd (getUid s)))
       \<and> uidSeed (resetUidSeed s) = 0"
proof -
  have 1: "uidSeed s < uidSeed (snd (getUid s))"
    using assms(1) by (simp add: getUid_def incr_number_def)
  have 2: "uidSeed (snd (getUid s)) \<le> uidSeed (run calls (snd (getUid s)))"
    using adv_run [OF assms(2)] by (simp add: adv_def)
  from 1 2 have "uidSeed (run calls (snd (getUid s))) \<noteq> uidSeed s" by simp
  then have 3: "fst (getUid (run calls (snd (getUid s)))) \<noteq> fst (getUid s)"
    by (auto simp: getUid_def dest: string_of_nat_inj)
  show ?thesis using 1 2 3 by (simp add: resetUidSeed_def)
qed

theorem getUid_fresh_witness:
  "fst (getUid initial) = ''_modal_0''
   \<and> fst (getUid (run c8_calls (snd (getUid initial)))) = ''_modal_3''
   \<and> fst (getUid (run c8_calls (snd (getUid initial)))) \<noteq> fst (getUid initial)
   \<and> uidSeed initial < uidSeed (snd (getUid initial))"
proof -
  have a: "uidSeed initial < 2 ^ 53" by (simp add: initial_def)
  have b: "ResetUidSeed \<notin> set c8_calls" by (simp add: c8_calls_def)
  have c: "fst (getUid initial) = ''_modal_0''"
    by (simp add: getUid_def initial_def string_of_nat.simps)
  have d: "fst (getUid (run c8_calls (snd (getUid initial)))) = ''_modal_3''"
    by (simp add: run_def c8_calls_def getUid_def getModalId_def initial_def incr_number_def
        string_of_nat.simps Let_def)
  from getUid_fresh [OF a b] c d show ?thesis by simp
qed

section \<open>Closing through the ModalRef\<close>




section \<open>Promises returned by afterClosed\<close>







section \<open>Calls on an identifier that is not in the store\<close>





section \<open>Opening an identifier again\<close>

lemma vals_update_replaced:
  "dvals al \<Longrightarrow> map_of al k = Some p \<Longrightarrow> p \<noteq> v \<Longrightarrow> p \<notin> vals (AList.update k v al)"
  unfolding dvals_def vals_def
proof (induction al)
  case Nil
  then show ?case by simp
next
  case (Cons a al)
  show ?case
  proof (cases "fst a = k")
    case True
    with Cons.prems(2) have "p = snd a" by (cases a) auto
    moreover from Cons.prems(1) have "snd a \<notin> snd ` set al" by simp
    ultimately have n: "p \<notin> insert v (snd ` set al)" using Cons.prems(3) by simp
    have u: "AList.update k v (a # al) = (k, v) # al" using True by simp
    from n show ?thesis unfolding u by simp
  next
    case False
    with Cons.prems have m: "map_of al k = Some p" by (cases a) auto
    then have pin: "p \<in> snd ` set al" by (force dest: map_of_SomeD)
    from Cons.prems(1) have na: "snd a \<notin> snd ` set al" by simp
    from pin na have "p \<noteq> snd a" by metis
    moreover from Cons.IH [OF _ m Cons.prems(3)] Cons.prems(1)
    have "p \<notin> snd ` set (AList.update k v al)" by simp
    ultimately show ?thesis using False by simp
  qed
qed

lemma vals_update_other:
  "p \<notin> vals al \<Longrightarrow> p \<noteq> v \<Longrightarrow> p \<notin> vals (AList.update k v al)"
  using vals_updateD by blast

lemma orphan_stays:
  assumes "evolves s s'" and "p < nextPromise s" and "p \<notin> deferred s"
  shows "promises s' p = promises s p"
  using assms unfolding evolves_def by blast

lemmas eval_defs = run_def after_def openModal_def closeModal_def removeModal_def
  dispatch_def reducer_def new_obj_def getModalId_def createDeferredPromise_def resolve_def
  resolve_entry_def cleanupModal_def setDispatch_def initial_def initial_objheap_def
  initialState_def spread_def MODAL_CONFIG_KEY_def no_config_def onAnimationEnd_def
  markClosed_def notifyOpened_def get_prop_def

text \<open>
  Claim C10, as stated, fails for the close promise: \<open>openModal\<close> does not replace the
  entry of \<open>hideModalCallbacks\<close>. The promise that \<open>closeModal\<close> returned in the previous
  cycle is still pending and still stored after the identifier is opened again, and a
  later \<open>removeModal\<close> or animation end resolves it.
\<close>

theorem reopen_counterexample:
  "map_of (hideModalCallbacks reopened_m1) ''m1'' = Some 3
   \<and> promises
        (run [SetDispatch ProviderDispatch, OpenModal (ById ''m1'') no_config,
              CloseModal (ById ''m1'')] initial) 3 = Pending
   \<and> promises reopened_m1 3 = Pending
   \<and> promises (run [RemoveModal (ById ''m1'')] reopened_m1) 3 = Resolved Undefined
   \<and> promises (run [AnimationEnd ''m1''] reopened_m1) 3 = Resolved Undefined"
  by (simp add: reopened_m1_def eval_defs) (simp add: Let_def eval_defs)

text \<open>
  Claim C10, amended. In a well-formed state with a dispatch function installed,
  \<open>openModal\<close> stores three newly allocated pending deferreds for the identifier: one in
  \<open>modalCallbacks\<close> and \<open>closedPromises\<close>, one in \<open>openedCallbacks\<close>, one in
  \<open>beforeClosedCallbacks\<close>; \<open>hideModalCallbacks\<close> is left as it was. Every promise that these
  three callback tables held for the identifier before the call is older than the new ones
  and keeps, through every later sequence of calls, the state it had at the moment of
  re-opening: if it was pending then, it is never resolved.
\<close>

theorem reopen_replaces_entries:
  assumes inst: "dispatchFn s = ProviderDispatch" and wfs: "well_formed s"
    and op: "openModal modal config s = Inr (r, s')"
  shows "map_of (modalCallbacks s') (ref_modalId r) = Some (nextPromise s)
     \<and> map_of (closedPromises s') (ref_modalId r) = Some (nextPromise s)
     \<and> map_of (openedCallbacks s') (ref_modalId r) = Some (nextPromise s + 1)
     \<and> map_of (beforeClosedCallbacks s') (ref_modalId r) = Some (nextPromise s + 2)
     \<and> promises s' (nextPromise s) = Pending
     \<and> promises s' (nextPromise s + 1) = Pending
     \<and> promises s' (nextPromise s + 2) = Pending
     \<and> hideModalCallbacks s' = hideModalCallbacks s
     \<and> (\<forall>p. map_of (modalCallbacks s) (ref_modalId r) = Some p
              \<or> map_of (openedCallbacks s) (ref_modalId r) = Some p
              \<or> map_of (beforeClosedCallbacks s) (ref_modalId r) = Some p
           \<longrightarrow> p < nextPromise s
               \<and> (\<forall>calls. promises (run calls s') p = promises s p))"
proof -
  let ?i = "ref_modalId r"
  let ?a = "nextPromise s"
  note o = openModal_result [OF inst op]
  note w = wfs [unfolded well_formed_alt]
  have new: "map_of (modalCallbacks s') ?i = Some ?a"
    "map_of (closedPromises s') ?i = Some ?a"
    "map_of (openedCallbacks s') ?i = Some (?a + 1)"
    "map_of (beforeClosedCallbacks s') ?i = Some (?a + 2)"
    "promises s' ?a = Pending" "promises s' (?a + 1) = Pending" "promises s' (?a + 2) = Pending"
    using o by (simp_all add: AList.update_conv')
  have dm: "dvals (modalCallbacks s)" and dop: "dvals (openedCallbacks s)"
    and db: "dvals (beforeClosedCallbacks s)"
    and mh: "vals (modalCallbacks s) \<inter> vals (hideModalCallbacks s) = {}"
    and mo: "vals (modalCallbacks s) \<inter> vals (openedCallbacks s) = {}"
    and mb: "vals (modalCallbacks s) \<inter> vals (beforeClosedCallbacks s) = {}"
    and ho: "vals (hideModalCallbacks s) \<inter> vals (openedCallbacks s) = {}"
    and hb: "vals (hideModalCallbacks s) \<inter> vals (beforeClosedCallbacks s) = {}"
    and ob: "vals (openedCallbacks s) \<inter> vals (beforeClosedCallbacks s) = {}"
    and bound: "\<forall>p\<in>deferred s. p < nextPromise s"
    using w by simp_all
  have old: "p < ?a \<and> (\<forall>calls. promises (run calls s') p = promises s p)"
    if p: "map_of (modalCallbacks s) ?i = Some p
              \<or> map_of (openedCallbacks s) ?i = Some p
              \<or> map_of (beforeClosedCallbacks s) ?i = Some p" for p
  proof -
    have orphan: "p < ?a \<and> p \<notin> vals (hideModalCallbacks s)
        \<and> p \<notin> vals (AList.update ?i ?a (modalCallbacks s))
        \<and> p \<notin> vals (AList.update ?i (?a + 1) (openedCallbacks s))
        \<and> p \<notin> vals (AList.update ?i (?a + 2) (beforeClosedCallbacks s))"
      using p
    proof (elim disjE)
      assume e: "map_of (modalCallbacks s) ?i = Some p"
      then have v: "p \<in> vals (modalCallbacks s)" by (rule vals_map_of)
      then have lt: "p < ?a" using bound by (simp add: deferred_alt)
      from v mh mo mb have "p \<notin> vals (hideModalCallbacks s)"
        "p \<notin> vals (openedCallbacks s)" "p \<notin> vals (beforeClosedCallbacks s)" by blast+
      with lt e dm show ?thesis
        by (simp add: vals_update_replaced vals_update_other)
    next
      assume e: "map_of (openedCallbacks s) ?i = Some p"
      then have v: "p \<in> vals (openedCallbacks s)" by (rule vals_map_of)
      then have lt: "p < ?a" using bound by (simp add: deferred_alt)
      from v ho mo ob have "p \<notin> vals (hideModalCallbacks s)"
        "p \<notin> vals (modalCallbacks s)" "p \<notin> vals (beforeClosedCallbacks s)" by blast+
      with lt e dop show ?thesis
        by (simp add: vals_update_replaced vals_update_other)
    next
      assume e: "map_of (beforeClosedCallbacks s) ?i = Some p"
      then have v: "p \<in> vals (beforeClosedCallbacks s)" by (rule vals_map_of)
      then have lt: "p < ?a" using bound by (simp add: deferred_alt)
      from v hb mb ob have "p \<notin> vals (hideModalCallbacks s)"
        "p \<notin> vals (modalCallbacks s)" "p \<notin> vals (openedCallbacks s)" by blast+
      with lt e db show ?thesis
        by (simp add: vals_update_replaced vals_update_other)
    qed
    then have lt: "p < ?a" and np: "p \<notin> deferred s'"
      using o(2,4,5,6) by (simp_all add: deferred_alt)
    have lt': "p < nextPromise s'" using lt o(1) by simp
    have same: "promises s' p = promises s p" using lt o(8) by simp
    have "promises (run calls s') p = promises s p" for calls
      using orphan_stays [OF evolves_run lt' np, of calls] same by simp
    with lt show ?thesis by simp
  qed
  from new old o(6) show ?thesis by blast
qed

theorem reopen_replaces_entries_witness:
  "dispatchFn one_open = ProviderDispatch \<and> well_formed one_open
   \<and> \<not> isl (openModal (ById ''m1'') no_config one_open)
   \<and> map_of (modalCallbacks one_open) ''m1'' = Some 0
   \<and> promises one_open 0 = Pending
   \<and> map_of (modalCallbacks (snd (projr (openModal (ById ''m1'') no_config one_open)))) ''m1''
       = Some 3
   \<and> promises
        (run [NotifyOpened ''m1'', RefClose ''m1'' (JNum 7), AnimationEnd ''m1'', FireTimer]
           (snd (projr (openModal (ById ''m1'') no_config one_open)))) 0 = Pending"
proof -
  let ?O = "openModal (ById ''m1'') no_config one_open"
  have d: "dispatchFn one_open = ProviderDispatch" by code_simp
  have w: "well_formed one_open"
    unfolding one_open_def mounted_provider_def setDispatch_def
    by (intro well_formed_run) (simp add: well_formed_def ledger_values_def initial_def)
  have i: "\<not> isl ?O" using d by (rule openModal_ok)
  then have o: "?O = Inr (fst (projr ?O), snd (projr ?O))" by (cases ?O) auto
  have r: "ref_modalId (fst (projr ?O)) = ''m1''" by code_simp
  have m: "map_of (modalCallbacks one_open) ''m1'' = Some 0" by code_simp
  have p: "promises one_open 0 = Pending" and n: "nextPromise one_open = 3" by code_simp+
  from reopen_replaces_entries [OF d w o] r m
  have a: "map_of (modalCallbacks (snd (projr ?O))) ''m1'' = Some (nextPromise one_open)"
    and b: "\<forall>calls. promises (run calls (snd (projr ?O))) 0 = promises one_open 0"
    by auto
  from a b [rule_format, of "[NotifyOpened ''m1'', RefClose ''m1'' (JNum 7), AnimationEnd ''m1'', FireTimer]"]
    d w i m p n show ?thesis by simp
qed

section \<open>Closing all modals\<close>







end
